theory Spec2Isabelle
  imports Complex_Main "HOL-Library.AList"
begin

section \<open>Values, rows and dataframes\<close>

text \<open>
  The job in \<^verbatim>\<open>etl.py\<close> is a sequence of dataframe operations. A cell holds a JSON
  scalar; a row carries its field names, as a Spark \<^verbatim>\<open>Row\<close> does; a dataframe is a
  schema (the column names, in order) and the rows in the order the engine enumerates
  them. Doubles are only carried from the input to the output, never computed with, and
  are kept as the rationals their decimal literals denote.
\<close>

datatype val = VNull | VStr string | VInt int | VDbl rat

type_synonym json = "(string \<times> val) list"

type_synonym row = "(string \<times> val) list"

record dataframe =
  columns :: "string list"
  rows :: "row list"

datatype error =
    FileNotFoundError string
  | ParsingError string
  | KeyError string
  | AnalysisException string
  | AttributeError string
  | TypeError
  | ValueError
  | IOError string

definition and_then :: "error + 'a \<Rightarrow> ('a \<Rightarrow> error + 'b) \<Rightarrow> error + 'b" where
  "and_then m f = (case m of Inl e \<Rightarrow> Inl e | Inr x \<Rightarrow> f x)"

fun map_result :: "('a \<Rightarrow> error + 'b) \<Rightarrow> 'a list \<Rightarrow> error + 'b list" where
  "map_result f [] = Inr []"
| "map_result f (x # xs) =
     (case f x of
        Inl e \<Rightarrow> Inl e
      | Inr y \<Rightarrow> (case map_result f xs of Inl e \<Rightarrow> Inl e | Inr ys \<Rightarrow> Inr (y # ys)))"

text \<open>A field that a record does not carry reads as null.\<close>

definition cell :: "row \<Rightarrow> string \<Rightarrow> val" where
  "cell r c = (case map_of r c of None \<Rightarrow> VNull | Some v \<Rightarrow> v)"

definition project :: "string list \<Rightarrow> row \<Rightarrow> row" where
  "project cs r = map (\<lambda>c. (c, cell r c)) cs"

text \<open>
  \<^verbatim>\<open>spark.read.json\<close> without a schema infers one: the columns are the fields that occur
  in some record, and a record without a field has null there. (Spark orders the inferred
  fields by name; every later step addresses columns by name, so the order of first
  appearance is kept here.)
\<close>

definition read_json :: "json list \<Rightarrow> dataframe" where
  "read_json recs =
     (let cs = remdups (concat (map (map fst) recs))
      in \<lparr>columns = cs, rows = map (project cs) recs\<rparr>)"

text \<open>\<^verbatim>\<open>df.select(names)\<close>: a name that is not a column is an analysis error.\<close>

definition select :: "string list \<Rightarrow> dataframe \<Rightarrow> error + dataframe" where
  "select cs df =
     (case filter (\<lambda>c. c \<notin> set (columns df)) cs of
        c # _ \<Rightarrow> Inl (AnalysisException c)
      | [] \<Rightarrow> Inr \<lparr>columns = cs, rows = map (project cs) (rows df)\<rparr>)"

text \<open>\<^verbatim>\<open>df.select(e1.alias(n1), ...)\<close> with expressions over the row.\<close>

definition select_exprs :: "(string \<times> (row \<Rightarrow> val)) list \<Rightarrow> dataframe \<Rightarrow> dataframe" where
  "select_exprs es df =
     \<lparr>columns = map fst es, rows = map (\<lambda>r. map (\<lambda>(n, f). (n, f r)) es) (rows df)\<rparr>"

definition dropDuplicates :: "dataframe \<Rightarrow> dataframe" where
  "dropDuplicates df = df\<lparr>rows := remdups (rows df)\<rparr>"

text \<open>
  \<^verbatim>\<open>sel.where(parent.c == v)\<close>, where \<^verbatim>\<open>sel\<close> is a projection of \<^verbatim>\<open>parent\<close>:
  \<^verbatim>\<open>parent.c\<close> is an attribute error when \<^verbatim>\<open>c\<close> is not a column of \<^verbatim>\<open>parent\<close>; a row
  of the projection is kept when the row of the parent it comes from has \<^verbatim>\<open>v\<close> in
  column \<^verbatim>\<open>c\<close> (a null there compares to null, and the row is dropped).
\<close>

definition where_eq :: "dataframe \<Rightarrow> string \<Rightarrow> val \<Rightarrow> dataframe \<Rightarrow> error + dataframe" where
  "where_eq parent c v sel =
     (if c \<notin> set (columns parent) then Inl (AttributeError c)
      else Inr (sel\<lparr>rows := map snd (filter (\<lambda>(p, r). cell p c = v) (zip (rows parent) (rows sel)))\<rparr>))"

text \<open>\<^verbatim>\<open>withColumn\<close> replaces the column of that name, or adds it as the last one.\<close>

definition with_column_names :: "string \<Rightarrow> string list \<Rightarrow> string list" where
  "with_column_names c cs = (if c \<in> set cs then cs else cs @ [c])"

definition withColumn :: "string \<Rightarrow> (row \<Rightarrow> val) \<Rightarrow> dataframe \<Rightarrow> dataframe" where
  "withColumn c f df =
     \<lparr>columns = with_column_names c (columns df),
      rows = map (\<lambda>r. AList.update c (f r) r) (rows df)\<rparr>"

text \<open>
  \<^verbatim>\<open>withColumn(c, udf(f)(arg))\<close>: the argument column must exist, and an exception of
  the Python function fails the job. (Spark raises it when the first action evaluates
  the column; here it is raised where the column is defined.)
\<close>

definition withColumn_udf ::
  "string \<Rightarrow> (val \<Rightarrow> error + val) \<Rightarrow> string \<Rightarrow> dataframe \<Rightarrow> error + dataframe" where
  "withColumn_udf c f arg df =
     (if arg \<notin> set (columns df) then Inl (AnalysisException arg)
      else and_then (map_result (\<lambda>r. and_then (f (cell r arg)) (\<lambda>v. Inr (AList.update c v r))) (rows df))
             (\<lambda>rs. Inr \<lparr>columns = with_column_names c (columns df), rows = rs\<rparr>))"

text \<open>A column \<open>c\<close> that holds, in the row at position \<open>k\<close> of the enumeration, the id \<open>ids k\<close>.\<close>

definition number_rows :: "(nat \<Rightarrow> int) \<Rightarrow> string \<Rightarrow> dataframe \<Rightarrow> dataframe" where
  "number_rows ids c df =
     \<lparr>columns = with_column_names c (columns df),
      rows = map (\<lambda>(k, r). AList.update c (VInt (ids k)) r) (enumerate 0 (rows df))\<rparr>"

text \<open>\<^verbatim>\<open>df.drop(names)\<close>: a name that is not a column is ignored.\<close>

definition drop_columns :: "string list \<Rightarrow> dataframe \<Rightarrow> dataframe" where
  "drop_columns cs df =
     \<lparr>columns = filter (\<lambda>c. c \<notin> set cs) (columns df),
      rows = map (filter (\<lambda>(k, v). k \<notin> set cs)) (rows df)\<rparr>"

section \<open>The engine, the host and the imported queries\<close>

text \<open>
  What the job calls and does not define is a parameter: the numbering that
  \<^verbatim>\<open>monotonically_increasing_id\<close> gives to the rows of a dataframe (it depends on how
  the engine has partitioned the dataframe), Python's \<^verbatim>\<open>int\<close> on a string,
  \<^verbatim>\<open>str(datetime.fromtimestamp(n))\<close> in the host's time zone (\<open>None\<close> when it raises) and
  Spark's calendar functions on the resulting text.
\<close>

record spark_session =
  monotonically_increasing_id :: "dataframe \<Rightarrow> nat \<Rightarrow> int"
  parse_int :: "string \<Rightarrow> int option"
  fromtimestamp :: "int \<Rightarrow> string option"
  year :: "val \<Rightarrow> val"
  month :: "val \<Rightarrow> val"
  dayofmonth :: "val \<Rightarrow> val"
  hour :: "val \<Rightarrow> val"
  weekofyear :: "val \<Rightarrow> val"
  date_format_E :: "val \<Rightarrow> val"

text \<open>\<^verbatim>\<open>df.withColumn(c, monotonically_increasing_id())\<close>\<close>

definition withColumn_id :: "spark_session \<Rightarrow> string \<Rightarrow> dataframe \<Rightarrow> dataframe" where
  "withColumn_id spark c df = number_rows (monotonically_increasing_id spark df) c df"

text \<open>
  \<^verbatim>\<open>from sql_queries import *\<close>: the four query texts that \<^verbatim>\<open>etl.py\<close> hands to
  \<^verbatim>\<open>spark.sql\<close>. A query is what it computes from the session's temporary views.
\<close>

type_synonym catalog = "string \<rightharpoonup> dataframe"

type_synonym query = "catalog \<Rightarrow> error + dataframe"

record sql_queries =
  artist_select_distinct :: query
  get_songplay_log_data :: query
  aggregate_songplay_data :: query
  user_select_distinct :: query

section \<open>The world the job runs in\<close>

datatype save_mode = Append | Overwrite | ErrorIfExists | Ignore

record stored =
  partitioned_by :: "string list"
  file_format :: string
  relation :: dataframe

datatype config_file = Absent | Unparsable | Parsed "string \<rightharpoonup> (string \<rightharpoonup> string)"

record world =
  dl_cfg :: config_file
  environ :: "string \<rightharpoonup> string"
  inputs :: "string \<rightharpoonup> json list"
  denied :: "string list"
  views :: catalog
  storage :: "string \<rightharpoonup> stored"
  reads :: "string list"
  writes :: "(string \<times> save_mode \<times> string list) list"

text \<open>
  A step of the job either returns a value or raises, and leaves a world behind in both
  cases. Nothing in \<^verbatim>\<open>etl.py\<close> catches an exception, so the first one ends the run.
\<close>

type_synonym 'a job = "world \<Rightarrow> (error + 'a) \<times> world"

definition then_job :: "'a job \<Rightarrow> ('a \<Rightarrow> 'b job) \<Rightarrow> 'b job" where
  "then_job m f w = (case m w of (Inl e, w') \<Rightarrow> (Inl e, w') | (Inr x, w') \<Rightarrow> f x w')"

definition lift :: "error + 'a \<Rightarrow> 'a job" where
  "lift r w = (r, w)"

definition spark_read_json :: "string \<Rightarrow> dataframe job" where
  "spark_read_json path w =
     (case inputs w path of
        None \<Rightarrow> (Inl (AnalysisException path), w\<lparr>reads := reads w @ [path]\<rparr>)
      | Some recs \<Rightarrow> (Inr (read_json recs), w\<lparr>reads := reads w @ [path]\<rparr>))"

definition createOrReplaceTempView :: "string \<Rightarrow> dataframe \<Rightarrow> unit job" where
  "createOrReplaceTempView name df w = (Inr (), w\<lparr>views := (views w)(name \<mapsto> df)\<rparr>)"

definition spark_sql :: "query \<Rightarrow> dataframe job" where
  "spark_sql qry w = (qry (views w), w)"

text \<open>
  \<^verbatim>\<open>df.write.partitionBy(parts).format(fmt).mode(m).save(path)\<close>. The partition columns
  must be columns of the dataframe, and not all of them. In overwrite mode what was at
  the path is replaced; the other modes are here for contrast.
\<close>

definition put :: "string \<Rightarrow> save_mode \<Rightarrow> string list \<Rightarrow> stored \<Rightarrow> world \<Rightarrow> world" where
  "put path m parts s w =
     w\<lparr>storage := (storage w)(path \<mapsto> s), writes := writes w @ [(path, m, parts)]\<rparr>"

definition save :: "save_mode \<Rightarrow> string list \<Rightarrow> string \<Rightarrow> string \<Rightarrow> dataframe \<Rightarrow> unit job" where
  "save m parts fmt path df w =
     (case filter (\<lambda>c. c \<notin> set (columns df)) parts of
        c # _ \<Rightarrow> (Inl (AnalysisException c), w)
      | [] \<Rightarrow>
         if parts \<noteq> [] \<and> set (columns df) \<subseteq> set parts then (Inl (AnalysisException path), w)
         else if path \<in> set (denied w) then (Inl (IOError path), w)
         else (case (m, storage w path) of
                 (Append, Some old) \<Rightarrow>
                   (Inr (), put path m parts
                      (old\<lparr>relation := (relation old)\<lparr>rows := rows (relation old) @ rows df\<rparr>\<rparr>) w)
               | (ErrorIfExists, Some old) \<Rightarrow> (Inl (AnalysisException path), w)
               | (Ignore, Some old) \<Rightarrow> (Inr (), w)
               | _ \<Rightarrow>
                   (Inr (), put path m parts
                      \<lparr>partitioned_by = parts, file_format = fmt, relation = df\<rparr> w)))"

section \<open>The two user-defined functions\<close>

text \<open>
  Python's \<^verbatim>\<open>int(x)\<close> on what Spark hands to a UDF: a long, a double (truncated toward
  zero), a string (parsed), or \<^verbatim>\<open>None\<close> (a type error).
\<close>

definition py_int :: "spark_session \<Rightarrow> val \<Rightarrow> error + int" where
  "py_int spark v =
     (case v of
        VNull \<Rightarrow> Inl TypeError
      | VInt n \<Rightarrow> Inr n
      | VDbl d \<Rightarrow> Inr (if 0 \<le> d then \<lfloor>d\<rfloor> else \<lceil>d\<rceil>)
      | VStr s \<Rightarrow> (case parse_int spark s of None \<Rightarrow> Inl ValueError | Some n \<Rightarrow> Inr n))"

text \<open>
  \<^verbatim>\<open>lambda x: int(int(x) / 1000)\<close>. The quotient is a double and the outer \<^verbatim>\<open>int\<close>
  truncates it toward zero. For \<open>\<bar>n\<bar> < 2 ^ 53\<close> the double is within \<open>2 ^ - 10\<close> of the
  exact quotient, which is an integer or at least \<open>1 / 1000\<close> away from the next one, so
  the truncation is that of the exact quotient; the model is meant for that range.
  (The UDF is declared without a return type, so Spark stores the decimal text of this
  integer in the column; the model keeps the integer.)
\<close>

definition trunc_div :: "int \<Rightarrow> int \<Rightarrow> int" where
  "trunc_div n d = (if 0 \<le> n then n div d else - ((- n) div d))"

definition get_start_time :: "spark_session \<Rightarrow> val \<Rightarrow> error + val" where
  "get_start_time spark x = and_then (py_int spark x) (\<lambda>n. Inr (VInt (trunc_div n 1000)))"

text \<open>\<^verbatim>\<open>lambda x: str(datetime.fromtimestamp(int(x)))\<close>\<close>

definition get_datetime :: "spark_session \<Rightarrow> val \<Rightarrow> error + val" where
  "get_datetime spark x =
     and_then (py_int spark x)
       (\<lambda>n. case fromtimestamp spark n of None \<Rightarrow> Inl ValueError | Some s \<Rightarrow> Inr (VStr s))"

section \<open>The job\<close>

text \<open>
  The locals \<^verbatim>\<open>song_data\<close>, \<^verbatim>\<open>song_columns\<close> and \<^verbatim>\<open>artist_columns\<close> of
  \<^verbatim>\<open>process_song_data\<close>. The log lines of the job have no part in what it reads, registers
  or writes, and are left out.
\<close>

definition song_data :: string where
  "song_data = ''s3a://udacity-dend/song_data/A/A/*/*.json''"

definition song_columns :: "string list" where
  "song_columns = [''song_id'', ''title'', ''artist_id'', ''artist_name'', ''year'', ''duration'']"

definition artist_columns :: "string list" where
  "artist_columns =
     [''artist_id'', ''artist_name'', ''artist_location'', ''artist_latitude'', ''artist_longitude'']"

definition process_song_data ::
  "spark_session \<Rightarrow> sql_queries \<Rightarrow> string \<Rightarrow> string \<Rightarrow> unit job" where
  "process_song_data spark q input_base_path output_base_path =
     then_job (spark_read_json song_data) (\<lambda>df.
     then_job (lift (select song_columns df)) (\<lambda>sel.
     let song_df = dropDuplicates sel in
     then_job (lift (select artist_columns df)) (\<lambda>asel.
     let artist_df = withColumn_id spark ''id'' asel in
     then_job (createOrReplaceTempView ''sparkify'' artist_df) (\<lambda>_.
     then_job (spark_sql (artist_select_distinct q)) (\<lambda>artist_df.
     then_job (createOrReplaceTempView ''artists'' artist_df) (\<lambda>_.
     then_job (createOrReplaceTempView ''songs'' song_df) (\<lambda>_.
     then_job (save Overwrite [''year'', ''artist_name''] ''parquet''
                 (output_base_path @ ''songs'') song_df) (\<lambda>_.
     save Overwrite [] ''parquet'' (output_base_path @ ''artists'') artist_df))))))))"

text \<open>
  The local \<^verbatim>\<open>columns\<close> of \<^verbatim>\<open>process_log_data\<close>, and the three dataframe expressions
  of its lines 85, 93 to 95 and 101 to 109.
\<close>

definition log_columns :: "string list" where
  "log_columns =
     [''userId'', ''firstName'', ''lastName'', ''gender'', ''level'', ''ts'', ''artist'', ''song'',
      ''length'', ''location'', ''sessionId'', ''userAgent'']"

definition log_rows :: "spark_session \<Rightarrow> dataframe \<Rightarrow> error + dataframe" where
  "log_rows spark df =
     and_then (select log_columns df) (\<lambda>sel.
     and_then (where_eq df ''page'' (VStr ''NextSong'') sel) (\<lambda>flt.
     Inr (withColumn_id spark ''id'' flt)))"

definition songplay_columns :: "spark_session \<Rightarrow> dataframe \<Rightarrow> error + dataframe" where
  "songplay_columns spark agg =
     and_then (withColumn_udf ''start_time'' (get_start_time spark) ''ts'' agg) (\<lambda>d1.
     let d2 = withColumn_id spark ''songplay_id'' d1 in
     and_then (withColumn_udf ''datetime'' (get_datetime spark) ''start_time'' d2) (\<lambda>d3.
     let d4 = withColumn ''year'' (\<lambda>r. year spark (cell r ''datetime'')) d3;
         d5 = withColumn ''month'' (\<lambda>r. month spark (cell r ''datetime'')) d4
     in Inr (drop_columns [''datetime'', ''ts''] d5)))"

definition time_columns :: "spark_session \<Rightarrow> dataframe \<Rightarrow> error + dataframe" where
  "time_columns spark songplay_df =
     and_then (select [''start_time''] songplay_df) (\<lambda>t1.
     and_then (withColumn_udf ''datetime'' (get_datetime spark) ''start_time'' (dropDuplicates t1)) (\<lambda>t2.
     Inr (drop_columns [''datetime'']
       (select_exprs
          [(''hour'', \<lambda>r. hour spark (cell r ''datetime'')),
           (''day'', \<lambda>r. dayofmonth spark (cell r ''datetime'')),
           (''week'', \<lambda>r. weekofyear spark (cell r ''datetime'')),
           (''month'', \<lambda>r. month spark (cell r ''datetime'')),
           (''year'', \<lambda>r. year spark (cell r ''datetime'')),
           (''weekday'', \<lambda>r. date_format_E spark (cell r ''datetime''))] t2))))"

definition process_log_data ::
  "spark_session \<Rightarrow> sql_queries \<Rightarrow> string \<Rightarrow> string \<Rightarrow> unit job" where
  "process_log_data spark q input_base_path output_base_path =
     (let log_data = input_base_path @ ''log_data/*/*/*.json'' in
      then_job (spark_read_json log_data) (\<lambda>df.
      then_job (lift (log_rows spark df)) (\<lambda>log_df.
      then_job (createOrReplaceTempView ''sparkify'' log_df) (\<lambda>_.
      then_job (spark_sql (get_songplay_log_data q)) (\<lambda>songplay_df.
      then_job (createOrReplaceTempView ''logs'' songplay_df) (\<lambda>_.
      then_job (spark_sql (aggregate_songplay_data q)) (\<lambda>agg.
      then_job (lift (songplay_columns spark agg)) (\<lambda>songplay_df.
      then_job (spark_sql (user_select_distinct q)) (\<lambda>user_df.
      then_job (lift (time_columns spark songplay_df)) (\<lambda>time_df.
      then_job (save Overwrite [] ''parquet'' (output_base_path @ ''users'') user_df) (\<lambda>_.
      then_job (save Overwrite [''year'', ''month''] ''parquet''
                  (output_base_path @ ''time'') time_df) (\<lambda>_.
      save Overwrite [''year'', ''month''] ''parquet''
        (output_base_path @ ''songplays'') songplay_df))))))))))))"

text \<open>
  \<^verbatim>\<open>main\<close>: the configuration file is opened and parsed, the two keys of section
  \<^verbatim>\<open>AWS\<close> are copied into the environment one after the other, and the two phases run.
  The session that \<^verbatim>\<open>create_spark_session\<close> returns is the parameter \<open>spark\<close>. A parsed
  file is the map from its section names to the options of the section; \<^verbatim>\<open>configparser\<close>
  folds the case of an option name when it stores and when it looks up, so an option is
  keyed here by the name the job asks for.
\<close>

definition read_file :: "(string \<rightharpoonup> (string \<rightharpoonup> string)) job" where
  "read_file w =
     (case dl_cfg w of
        Absent \<Rightarrow> (Inl (FileNotFoundError ''dl.cfg''), w)
      | Unparsable \<Rightarrow> (Inl (ParsingError ''dl.cfg''), w)
      | Parsed config \<Rightarrow> (Inr config, w))"

definition config_get ::
  "(string \<rightharpoonup> (string \<rightharpoonup> string)) \<Rightarrow> string \<Rightarrow> string \<Rightarrow> error + string" where
  "config_get config section key =
     (case config section of
        None \<Rightarrow> Inl (KeyError section)
      | Some opts \<Rightarrow> (case opts key of None \<Rightarrow> Inl (KeyError key) | Some v \<Rightarrow> Inr v))"

definition setenv :: "string \<Rightarrow> string \<Rightarrow> unit job" where
  "setenv k v w = (Inr (), w\<lparr>environ := (environ w)(k \<mapsto> v)\<rparr>)"

definition input_data :: string where
  "input_data = ''s3a://udacity-dend/''"

definition output_data :: string where
  "output_data = ''s3a://despotakis-data-lake/''"

definition main :: "spark_session \<Rightarrow> sql_queries \<Rightarrow> unit job" where
  "main spark q =
     then_job read_file (\<lambda>config.
     then_job (lift (config_get config ''AWS'' ''AWS_ACCESS_KEY_ID'')) (\<lambda>key_id.
     then_job (setenv ''AWS_ACCESS_KEY_ID'' key_id) (\<lambda>_.
     then_job (lift (config_get config ''AWS'' ''AWS_SECRET_ACCESS_KEY'')) (\<lambda>secret.
     then_job (setenv ''AWS_SECRET_ACCESS_KEY'' secret) (\<lambda>_.
     then_job (process_song_data spark q input_data output_data) (\<lambda>_.
     process_log_data spark q input_data output_data))))))"

section \<open>The queries of \<^verbatim>\<open>sql_queries.py\<close>\<close>

text \<open>
  \<^verbatim>\<open>sql_queries.py\<close> is not among the sources. The definitions of this section follow
  the specification's description of what the four queries compute.
\<close>

definition view :: "catalog \<Rightarrow> string \<Rightarrow> error + dataframe" where
  "view vs name = (case vs name of None \<Rightarrow> Inl (AnalysisException name) | Some df \<Rightarrow> Inr df)"

text \<open>SQL equality: a null is equal to nothing.\<close>

definition sql_eq :: "val \<Rightarrow> val \<Rightarrow> bool" where
  "sql_eq a b = (a \<noteq> VNull \<and> a = b)"

text \<open>
  Modelled from the spec: the row that a deduplicating query of \<^verbatim>\<open>sql_queries.py\<close>
  keeps, "keeping first occurrence" for the artists and "last-seen level wins" for the
  users: the row of least (greatest) \<^verbatim>\<open>id\<close> among the rows that have its value in
  column \<open>key\<close>.
\<close>

definition is_first :: "string \<Rightarrow> row list \<Rightarrow> row \<Rightarrow> bool" where
  "is_first key rs r =
     (case cell r ''id'' of
        VInt i \<Rightarrow> (\<forall>r' \<in> set rs. cell r' key = cell r key \<longrightarrow>
                     (case cell r' ''id'' of VInt j \<Rightarrow> i \<le> j | _ \<Rightarrow> True))
      | _ \<Rightarrow> False)"

definition is_last :: "string \<Rightarrow> row list \<Rightarrow> row \<Rightarrow> bool" where
  "is_last key rs r =
     (case cell r ''id'' of
        VInt i \<Rightarrow> (\<forall>r' \<in> set rs. cell r' key = cell r key \<longrightarrow>
                     (case cell r' ''id'' of VInt j \<Rightarrow> j \<le> i | _ \<Rightarrow> True))
      | _ \<Rightarrow> False)"

text \<open>
  Modelled from the spec: \<^verbatim>\<open>artist_select_distinct\<close> of \<^verbatim>\<open>sql_queries.py\<close>. "Artist
  record: artist_id, artist_name, location, latitude, longitude -- deduplicated by
  artist_id, keeping first occurrence, with a synthetic monotonically increasing
  surrogate id assigned before deduplication (surrogate id is discarded, not
  persisted)". The query reads the view \<^verbatim>\<open>sparkify\<close>, which \<^verbatim>\<open>process_song_data\<close>
  registers with the five artist columns of the metadata and the column \<^verbatim>\<open>id\<close>.
\<close>

definition spec_artist_select_distinct :: query where
  "spec_artist_select_distinct vs =
     and_then (view vs ''sparkify'') (\<lambda>t.
     and_then (select (artist_columns @ [''id'']) t) (\<lambda>t'.
     select artist_columns
       (t'\<lparr>rows := filter (is_first ''artist_id'' (rows t')) (rows t')\<rparr>)))"

text \<open>
  Modelled from the spec: \<^verbatim>\<open>user_select_distinct\<close> of \<^verbatim>\<open>sql_queries.py\<close>. "User
  dimension: distinct users derived from event records, last-seen level wins"; the event
  record "carries userId, name fields, gender, subscription level". The last-seen event
  of a user is taken to be the one of greatest \<^verbatim>\<open>id\<close> in the view \<^verbatim>\<open>sparkify\<close>, as
  \<^verbatim>\<open>process_log_data\<close> registers it.
\<close>

definition spec_user_select_distinct :: query where
  "spec_user_select_distinct vs =
     and_then (view vs ''sparkify'') (\<lambda>t.
     and_then (select [''userId'', ''firstName'', ''lastName'', ''gender'', ''level'', ''id''] t) (\<lambda>t'.
     select [''userId'', ''firstName'', ''lastName'', ''gender'', ''level'']
       (t'\<lparr>rows := filter (is_last ''userId'' (rows t')) (rows t')\<rparr>)))"

text \<open>
  Modelled from the spec: \<^verbatim>\<open>get_songplay_log_data\<close> of \<^verbatim>\<open>sql_queries.py\<close>, whose result
  \<^verbatim>\<open>process_log_data\<close> registers as the view \<^verbatim>\<open>logs\<close>. The specification says of it
  only that the facts are derived from the qualifying events; it is taken to keep, of
  every row of \<^verbatim>\<open>sparkify\<close>, the event's fields that a fact carries or is matched on.
\<close>

definition spec_get_songplay_log_data :: query where
  "spec_get_songplay_log_data vs =
     and_then (view vs ''sparkify'')
       (select [''ts'', ''userId'', ''level'', ''song'', ''artist'', ''sessionId'', ''location'',
                ''userAgent''])"

text \<open>
  Modelled from the spec: \<^verbatim>\<open>aggregate_songplay_data\<close> of \<^verbatim>\<open>sql_queries.py\<close>. "Joins/derives
  songplay facts by matching event rows against song/artist relations produced in 4.1
  (join keys: artist name and song title, exact match)"; a fact is "a single qualifying
  playback event enriched with matched song/artist identifiers", and an event that
  matches nothing is "dropped silently". An event row of \<^verbatim>\<open>logs\<close> is paired with every
  row of \<^verbatim>\<open>songs\<close> of its song title and every row of \<^verbatim>\<open>artists\<close> of its artist name.
\<close>

definition spec_aggregate_songplay_data :: query where
  "spec_aggregate_songplay_data vs =
     and_then (view vs ''logs'') (\<lambda>l.
     and_then (select [''ts'', ''userId'', ''level'', ''song'', ''artist'', ''sessionId'', ''location'',
                       ''userAgent''] l) (\<lambda>l'.
     and_then (view vs ''songs'') (\<lambda>s.
     and_then (select [''song_id'', ''title''] s) (\<lambda>s'.
     and_then (view vs ''artists'') (\<lambda>a.
     and_then (select [''artist_id'', ''artist_name''] a) (\<lambda>a'.
     Inr \<lparr>columns = [''ts'', ''userId'', ''level'', ''song_id'', ''artist_id'', ''sessionId'',
                     ''location'', ''userAgent''],
          rows = concat (map (\<lambda>e.
                   concat (map (\<lambda>sg.
                     map (\<lambda>ar.
                       [(''ts'', cell e ''ts''), (''userId'', cell e ''userId''),
                        (''level'', cell e ''level''), (''song_id'', cell sg ''song_id''),
                        (''artist_id'', cell ar ''artist_id''),
                        (''sessionId'', cell e ''sessionId''), (''location'', cell e ''location''),
                        (''userAgent'', cell e ''userAgent'')])
                       (filter (\<lambda>ar. sql_eq (cell e ''artist'') (cell ar ''artist_name'')) (rows a')))
                     (filter (\<lambda>sg. sql_eq (cell e ''song'') (cell sg ''title'')) (rows s'))))
                   (rows l'))\<rparr>))))))"

definition spec_queries :: sql_queries where
  "spec_queries =
     \<lparr>artist_select_distinct = spec_artist_select_distinct,
      get_songplay_log_data = spec_get_songplay_log_data,
      aggregate_songplay_data = spec_aggregate_songplay_data,
      user_select_distinct = spec_user_select_distinct\<rparr>"

section \<open>Reading a stored relation\<close>

definition column_values :: "string \<Rightarrow> dataframe \<Rightarrow> val list" where
  "column_values c df = map (\<lambda>r. cell r c) (rows df)"

definition stored_column :: "string \<Rightarrow> string \<Rightarrow> world \<Rightarrow> val list option" where
  "stored_column path c w = map_option (\<lambda>s. column_values c (relation s)) (storage w path)"


section \<open>The end-to-end scenario\<close>

text \<open>
  A host for the scenario: rows are numbered from 0, and the calendar is the table of
  the two instants the examples have, seconds 0 and 1000 of the epoch in UTC, both in
  the first hour of Thursday 1 January 1970, which lies in ISO week 1.
\<close>

definition on_scenario_day :: "val \<Rightarrow> val \<Rightarrow> val" where
  "on_scenario_day v x =
     (if v = VStr ''1970-01-01 00:00:00'' \<or> v = VStr ''1970-01-01 00:16:40'' then x else VNull)"

definition scenario_session :: spark_session where
  "scenario_session =
     \<lparr>monotonically_increasing_id = (\<lambda>df. int),
      parse_int = (\<lambda>s. None),
      fromtimestamp = (\<lambda>n. if n = 0 then Some ''1970-01-01 00:00:00''
                              else if n = 1000 then Some ''1970-01-01 00:16:40'' else None),
      year = (\<lambda>v. on_scenario_day v (VInt 1970)),
      month = (\<lambda>v. on_scenario_day v (VInt 1)),
      dayofmonth = (\<lambda>v. on_scenario_day v (VInt 1)),
      hour = (\<lambda>v. on_scenario_day v (VInt 0)),
      weekofyear = (\<lambda>v. on_scenario_day v (VInt 1)),
      date_format_E = (\<lambda>v. on_scenario_day v (VStr ''Thu''))\<rparr>"

definition scenario_world :: "json list \<Rightarrow> json list \<Rightarrow> world" where
  "scenario_world metadata events =
     \<lparr>dl_cfg = Parsed [''AWS'' \<mapsto> [''AWS_ACCESS_KEY_ID'' \<mapsto> ''id'', ''AWS_SECRET_ACCESS_KEY'' \<mapsto> ''secret'']],
      environ = Map.empty,
      inputs = [song_data \<mapsto> metadata, input_data @ ''log_data/*/*/*.json'' \<mapsto> events],
      denied = [],
      views = Map.empty,
      storage = Map.empty,
      reads = [],
      writes = []\<rparr>"

text \<open>The two records as the scenario lists them.\<close>

definition stated_metadata :: json where
  "stated_metadata =
     [(''song_id'', VStr ''S1''), (''artist_id'', VStr ''A1''), (''artist_name'', VStr ''Foo''),
      (''year'', VInt 2000), (''duration'', VDbl 200)]"

definition stated_event :: json where
  "stated_event =
     [(''page'', VStr ''NextSong''), (''artist'', VStr ''Foo''), (''song'', VStr ''Bar''),
      (''ts'', VInt 1000000), (''userId'', VStr ''1''), (''level'', VStr ''free'')]"


definition titled_metadata :: json where
  "titled_metadata =
     stated_metadata @
     [(''title'', VStr ''Bar''), (''artist_location'', VNull), (''artist_latitude'', VNull),
      (''artist_longitude'', VNull)]"

definition padded_event :: json where
  "padded_event =
     stated_event @
     [(''firstName'', VNull), (''lastName'', VNull), (''gender'', VNull), (''length'', VNull),
      (''location'', VNull), (''sessionId'', VNull), (''userAgent'', VNull)]"


definition home_event :: json where
  "home_event = AList.update ''page'' (VStr ''Home'') padded_event"

text \<open>
  A sample run for the examples below: the metadata record twice, and two playbacks of
  the song around a page view.
\<close>

definition sample_world :: world where
  "sample_world =
     scenario_world [titled_metadata, titled_metadata] [padded_event, home_event, padded_event]"

definition after_song_phase :: world where
  "after_song_phase =
     snd (process_song_data scenario_session spec_queries input_data output_data sample_world)"

definition after_log_phase :: world where
  "after_log_phase =
     snd (process_log_data scenario_session spec_queries input_data output_data after_song_phase)"

definition after_main :: world where
  "after_main = snd (main scenario_session spec_queries sample_world)"

section \<open>Keeping the first occurrence\<close>

text \<open>
  "Deduplicated by artist_id, keeping first occurrence", in the specification's words:
  a row stays, and the later rows of its key go.
\<close>

fun keep_first :: "('a \<Rightarrow> 'k) \<Rightarrow> 'a list \<Rightarrow> 'a list" where
  "keep_first key [] = []"
| "keep_first key (x # xs) = x # keep_first key (filter (\<lambda>y. key y \<noteq> key x) xs)"

section \<open>Steps that succeed\<close>

lemma and_then_Inr: "and_then m f = Inr y \<longleftrightarrow> (\<exists>x. m = Inr x \<and> f x = Inr y)"
  by (cases m) (simp_all add: and_then_def)

lemma then_job_Inr:
  "then_job m f w = (Inr y, w') \<longleftrightarrow> (\<exists>x w1. m w = (Inr x, w1) \<and> f x w1 = (Inr y, w'))"
  by (auto simp: then_job_def split: prod.splits sum.splits)

lemma lift_eq: "lift r w = (x, w') \<longleftrightarrow> r = x \<and> w' = w"
  by (auto simp: lift_def)

lemma select_Inr:
  "select cs df = Inr d \<longleftrightarrow>
     set cs \<subseteq> set (columns df) \<and> d = \<lparr>columns = cs, rows = map (project cs) (rows df)\<rparr>"
proof (cases "filter (\<lambda>c. c \<notin> set (columns df)) cs")
  case Nil
  then have "set cs \<subseteq> set (columns df)" by (auto simp: filter_empty_conv)
  with Nil show ?thesis by (auto simp: select_def)
next
  case (Cons c cs')
  then have "c \<in> set (filter (\<lambda>c. c \<notin> set (columns df)) cs)" by simp
  then have "\<not> set cs \<subseteq> set (columns df)" by auto
  with Cons show ?thesis by (simp add: select_def)
qed

lemma spark_read_json_Inr:
  "spark_read_json p w = (Inr df, w') \<longleftrightarrow>
     (\<exists>recs. inputs w p = Some recs \<and> df = read_json recs \<and> w' = w\<lparr>reads := reads w @ [p]\<rparr>)"
  by (auto simp: spark_read_json_def split: option.splits)

lemma view_Inr: "createOrReplaceTempView n d w = (Inr u, w') \<longleftrightarrow> w' = w\<lparr>views := (views w)(n \<mapsto> d)\<rparr>"
  by (auto simp: createOrReplaceTempView_def)

lemma spark_sql_Inr: "spark_sql qry w = (Inr d, w') \<longleftrightarrow> qry (views w) = Inr d \<and> w' = w"
  by (auto simp: spark_sql_def)

lemma save_Overwrite_Inr:
  "save Overwrite parts fmt path df w = (Inr u, w') \<longleftrightarrow>
     set parts \<subseteq> set (columns df) \<and> (parts = [] \<or> \<not> set (columns df) \<subseteq> set parts) \<and>
     path \<notin> set (denied w) \<and>
     w' = put path Overwrite parts \<lparr>partitioned_by = parts, file_format = fmt, relation = df\<rparr> w"
proof (cases "filter (\<lambda>c. c \<notin> set (columns df)) parts")
  case Nil
  then have "set parts \<subseteq> set (columns df)" by (auto simp: filter_empty_conv)
  with Nil show ?thesis by (auto simp: save_def split: option.splits)
next
  case (Cons c cs')
  then have "c \<in> set (filter (\<lambda>c. c \<notin> set (columns df)) parts)" by simp
  then have "\<not> set parts \<subseteq> set (columns df)" by auto
  with Cons show ?thesis by (simp add: save_def)
qed

lemmas job_Inr = then_job_Inr lift_eq spark_read_json_Inr view_Inr spark_sql_Inr save_Overwrite_Inr

lemma process_song_data_Inr:
  "process_song_data spark q a out w = (Inr (), w') \<longleftrightarrow>
     (\<exists>recs sel asel art.
        inputs w song_data = Some recs \<and>
        select song_columns (read_json recs) = Inr sel \<and>
        select artist_columns (read_json recs) = Inr asel \<and>
        artist_select_distinct q
          ((views w)(''sparkify'' \<mapsto> withColumn_id spark ''id'' asel)) = Inr art \<and>
        out @ ''songs'' \<notin> set (denied w) \<and> out @ ''artists'' \<notin> set (denied w) \<and>
        w' = put (out @ ''artists'') Overwrite []
               \<lparr>partitioned_by = [], file_format = ''parquet'', relation = art\<rparr>
            (put (out @ ''songs'') Overwrite [''year'', ''artist_name'']
               \<lparr>partitioned_by = [''year'', ''artist_name''], file_format = ''parquet'',
                relation = dropDuplicates sel\<rparr>
            (w\<lparr>reads := reads w @ [song_data],
               views := (views w)(''sparkify'' \<mapsto> withColumn_id spark ''id'' asel,
                                  ''artists'' \<mapsto> art, ''songs'' \<mapsto> dropDuplicates sel)\<rparr>)))"
  unfolding process_song_data_def Let_def job_Inr
  apply (rule iffI)
   apply (clarsimp simp: select_Inr dropDuplicates_def song_columns_def put_def)
  apply (clarsimp simp: select_Inr dropDuplicates_def song_columns_def put_def)
  done


lemma cell_update: "cell (AList.update c v r) c' = (if c' = c then v else cell r c')"
  by (simp add: cell_def update_conv')

lemma cell_drop: "cell (filter (\<lambda>(k, v). k \<notin> set cs) r) c = (if c \<in> set cs then VNull else cell r c)"
  by (induction r) (auto simp: cell_def)

lemma cell_project: "cell (project cs r) c = (if c \<in> set cs then cell r c else VNull)"
  by (induction cs) (auto simp: cell_def project_def)

lemma project_cong: "(\<And>c. c \<in> set cs \<Longrightarrow> cell r c = cell r' c) \<Longrightarrow> project cs r = project cs r'"
  by (simp add: project_def)

lemma project_project: "set cs \<subseteq> set ds \<Longrightarrow> project cs (project ds r) = project cs r"
  by (rule project_cong) (auto simp: cell_project)

lemma set_with_column_names: "set (with_column_names c cs) = insert c (set cs)"
  by (auto simp: with_column_names_def)

lemma map_result_Inr:
  "map_result f xs = Inr ys \<Longrightarrow> length ys = length xs \<and> (\<forall>k < length xs. f (xs ! k) = Inr (ys ! k))"
proof (induction xs arbitrary: ys)
  case Nil
  then show ?case by simp
next
  case (Cons x xs)
  from Cons.prems obtain y ys' where y: "f x = Inr y" and ys': "map_result f xs = Inr ys'" and ys: "ys = y # ys'"
    by (auto split: sum.splits)
  from Cons.IH [OF ys'] y ys show ?case
    by (auto simp: nth_Cons split: nat.splits)
qed

lemma withColumn_udf_Inr:
  assumes "withColumn_udf c f arg df = Inr d"
  shows "columns d = with_column_names c (columns df)"
    and "length (rows d) = length (rows df)"
    and "k < length (rows df) \<Longrightarrow>
           \<exists>v. f (cell (rows df ! k) arg) = Inr v \<and> rows d ! k = AList.update c v (rows df ! k)"
proof -
  from assms obtain rs where
    rs: "map_result (\<lambda>r. and_then (f (cell r arg)) (\<lambda>v. Inr (AList.update c v r))) (rows df) = Inr rs"
    and d: "d = \<lparr>columns = with_column_names c (columns df), rows = rs\<rparr>"
    by (auto simp: withColumn_udf_def and_then_Inr split: if_splits)
  from d show "columns d = with_column_names c (columns df)" by simp
  from map_result_Inr [OF rs] d show "length (rows d) = length (rows df)" by simp
  assume "k < length (rows df)"
  with map_result_Inr [OF rs] d show
    "\<exists>v. f (cell (rows df ! k) arg) = Inr v \<and> rows d ! k = AList.update c v (rows df ! k)"
    by (auto simp: and_then_Inr)
qed

lemma withColumn_id_nth:
  "k < length (rows df) \<Longrightarrow>
     rows (withColumn_id spark c df) ! k =
       AList.update c (VInt (monotonically_increasing_id spark df k)) (rows df ! k)"
  by (simp add: withColumn_id_def number_rows_def nth_enumerate_eq)

lemma withColumn_id_length: "length (rows (withColumn_id spark c df)) = length (rows df)"
  by (simp add: withColumn_id_def number_rows_def)

lemma withColumn_nth:
  "k < length (rows df) \<Longrightarrow> rows (withColumn c f df) ! k = AList.update c (f (rows df ! k)) (rows df ! k)"
  by (simp add: withColumn_def)

lemma withColumn_length: "length (rows (withColumn c f df)) = length (rows df)"
  by (simp add: withColumn_def)

lemma drop_columns_cell:
  "k < length (rows df) \<Longrightarrow>
     cell (rows (drop_columns cs df) ! k) c = (if c \<in> set cs then VNull else cell (rows df ! k) c)"
  by (simp add: drop_columns_def cell_drop)

lemma drop_columns_length: "length (rows (drop_columns cs df)) = length (rows df)"
  by (simp add: drop_columns_def)

lemma songplay_columns_Inr:
  assumes "songplay_columns spark agg = Inr sp"
  shows "set (columns sp) =
           (set (columns agg) \<union> {''start_time'', ''songplay_id'', ''year'', ''month''}) - {''datetime'', ''ts''}"
    and "length (rows sp) = length (rows agg)"
    and "\<exists>d. \<forall>k < length (rows agg).
           cell (rows sp ! k) ''songplay_id'' = VInt (monotonically_increasing_id spark d k) \<and>
           get_start_time spark (cell (rows agg ! k) ''ts'') = Inr (cell (rows sp ! k) ''start_time'')"
proof -
  from assms obtain d1 d3 where
    d1: "withColumn_udf ''start_time'' (get_start_time spark) ''ts'' agg = Inr d1" and
    d3: "withColumn_udf ''datetime'' (get_datetime spark) ''start_time''
           (withColumn_id spark ''songplay_id'' d1) = Inr d3" and
    sp: "sp = drop_columns [''datetime'', ''ts'']
           (withColumn ''month'' (\<lambda>r. month spark (cell r ''datetime''))
             (withColumn ''year'' (\<lambda>r. year spark (cell r ''datetime'')) d3))"
    by (auto simp: songplay_columns_def and_then_Inr Let_def)
  note u1 = withColumn_udf_Inr [OF d1] and u3 = withColumn_udf_Inr [OF d3]
  from u1(1) u3(1) sp show "set (columns sp) =
      (set (columns agg) \<union> {''start_time'', ''songplay_id'', ''year'', ''month''}) - {''datetime'', ''ts''}"
    by (auto simp: drop_columns_def withColumn_def withColumn_id_def number_rows_def
          set_with_column_names)
  from u1(2) u3(2) sp show len: "length (rows sp) = length (rows agg)"
    by (simp add: drop_columns_length withColumn_length withColumn_id_length)
  have "cell (rows sp ! k) ''songplay_id'' = VInt (monotonically_increasing_id spark d1 k) \<and>
        get_start_time spark (cell (rows agg ! k) ''ts'') = Inr (cell (rows sp ! k) ''start_time'')"
    if k: "k < length (rows agg)" for k
  proof -
    from u1(3) [OF k] obtain st where
      st: "get_start_time spark (cell (rows agg ! k) ''ts'') = Inr st" and
      r1: "rows d1 ! k = AList.update ''start_time'' st (rows agg ! k)" by blast
    from k u1(2) have k1: "k < length (rows d1)" by simp
    then have k2: "k < length (rows (withColumn_id spark ''songplay_id'' d1))"
      by (simp add: withColumn_id_length)
    from u3(3) [OF k2] obtain dt where
      r3: "rows d3 ! k = AList.update ''datetime'' dt (rows (withColumn_id spark ''songplay_id'' d1) ! k)"
      by blast
    from k2 u3(2) have k3: "k < length (rows d3)" by simp
    from sp k3 r3 r1 k1 st show ?thesis
      by (simp add: drop_columns_cell withColumn_length withColumn_nth withColumn_id_nth cell_update)
  qed
  then show "\<exists>d. \<forall>k < length (rows agg).
           cell (rows sp ! k) ''songplay_id'' = VInt (monotonically_increasing_id spark d k) \<and>
           get_start_time spark (cell (rows agg ! k) ''ts'') = Inr (cell (rows sp ! k) ''start_time'')"
    by blast
qed

lemma time_columns_Inr:
  assumes "time_columns spark sp = Inr t"
  shows "columns t = [''hour'', ''day'', ''week'', ''month'', ''year'', ''weekday'']"
    and "length (rows t) = card ((\<lambda>r. cell r ''start_time'') ` set (rows sp))"
proof -
  from assms obtain t1 t2 where
    t1: "select [''start_time''] sp = Inr t1" and
    t2: "withColumn_udf ''datetime'' (get_datetime spark) ''start_time'' (dropDuplicates t1) = Inr t2" and
    t: "t = drop_columns [''datetime'']
          (select_exprs
            [(''hour'', \<lambda>r. hour spark (cell r ''datetime'')),
             (''day'', \<lambda>r. dayofmonth spark (cell r ''datetime'')),
             (''week'', \<lambda>r. weekofyear spark (cell r ''datetime'')),
             (''month'', \<lambda>r. month spark (cell r ''datetime'')),
             (''year'', \<lambda>r. year spark (cell r ''datetime'')),
             (''weekday'', \<lambda>r. date_format_E spark (cell r ''datetime''))] t2)"
    by (auto simp: time_columns_def and_then_Inr)
  from t show "columns t = [''hour'', ''day'', ''week'', ''month'', ''year'', ''weekday'']"
    by (simp add: drop_columns_def select_exprs_def)
  from t1 have r1: "rows t1 = map (project [''start_time'']) (rows sp)"
    by (simp add: select_Inr)
  have "length (rows t) = length (rows t2)"
    using t by (simp add: drop_columns_def select_exprs_def)
  also have "\<dots> = length (remdups (rows t1))"
    using withColumn_udf_Inr(2) [OF t2] by (simp add: dropDuplicates_def)
  also have "\<dots> = card (project [''start_time''] ` set (rows sp))"
    by (simp add: r1 length_remdups_card_conv)
  also have "project [''start_time''] ` set (rows sp) =
      (\<lambda>v. [(''start_time'', v)]) ` (\<lambda>r. cell r ''start_time'') ` set (rows sp)"
    by (auto simp: project_def image_image)
  also have "card \<dots> = card ((\<lambda>r. cell r ''start_time'') ` set (rows sp))"
    by (rule card_image) (simp add: inj_on_def)
  finally show "length (rows t) = card ((\<lambda>r. cell r ''start_time'') ` set (rows sp))" .
qed

lemma set_columns_read_json: "set (columns (read_json recs)) = (\<Union>r \<in> set recs. fst ` set r)"
  by (auto simp: read_json_def Let_def)

lemma rows_read_json: "rows (read_json recs) = map (project (columns (read_json recs))) recs"
  by (simp add: read_json_def Let_def)

lemma filter_zip_map:
  "map snd (filter (\<lambda>(p, r). P p) (zip (map f xs) (map g xs))) = map g (filter (\<lambda>x. P (f x)) xs)"
  by (induction xs) auto

lemma log_rows_Inr:
  "log_rows spark (read_json events) = Inr lr \<longleftrightarrow>
     set log_columns \<subseteq> set (columns (read_json events)) \<and>
     ''page'' \<in> set (columns (read_json events)) \<and>
     lr = withColumn_id spark ''id''
            \<lparr>columns = log_columns,
             rows = map (project log_columns)
                      (filter (\<lambda>e. cell e ''page'' = VStr ''NextSong'') events)\<rparr>"
proof -
  let ?cs = "columns (read_json events)"
  have rows: "set log_columns \<subseteq> set ?cs \<Longrightarrow> ''page'' \<in> set ?cs \<Longrightarrow>
      map snd (filter (\<lambda>(p, r). cell p ''page'' = VStr ''NextSong'')
        (zip (rows (read_json events)) (map (project log_columns) (rows (read_json events))))) =
      map (project log_columns) (filter (\<lambda>e. cell e ''page'' = VStr ''NextSong'') events)"
    by (simp add: rows_read_json filter_zip_map cell_project project_project cong: map_cong)
  show ?thesis
    by (auto simp: log_rows_def and_then_Inr select_Inr where_eq_def rows)
qed

lemma process_log_data_Inr:
  "process_log_data spark q a out w = (Inr (), w') \<longleftrightarrow>
     (\<exists>events lr lg agg sp us tm.
        inputs w (a @ ''log_data/*/*/*.json'') = Some events \<and>
        log_rows spark (read_json events) = Inr lr \<and>
        get_songplay_log_data q ((views w)(''sparkify'' \<mapsto> lr)) = Inr lg \<and>
        aggregate_songplay_data q ((views w)(''sparkify'' \<mapsto> lr, ''logs'' \<mapsto> lg)) = Inr agg \<and>
        songplay_columns spark agg = Inr sp \<and>
        user_select_distinct q ((views w)(''sparkify'' \<mapsto> lr, ''logs'' \<mapsto> lg)) = Inr us \<and>
        time_columns spark sp = Inr tm \<and>
        out @ ''users'' \<notin> set (denied w) \<and> out @ ''time'' \<notin> set (denied w) \<and>
        out @ ''songplays'' \<notin> set (denied w) \<and>
        w' = put (out @ ''songplays'') Overwrite [''year'', ''month'']
               \<lparr>partitioned_by = [''year'', ''month''], file_format = ''parquet'', relation = sp\<rparr>
            (put (out @ ''time'') Overwrite [''year'', ''month'']
               \<lparr>partitioned_by = [''year'', ''month''], file_format = ''parquet'', relation = tm\<rparr>
            (put (out @ ''users'') Overwrite []
               \<lparr>partitioned_by = [], file_format = ''parquet'', relation = us\<rparr>
            (w\<lparr>reads := reads w @ [a @ ''log_data/*/*/*.json''],
               views := (views w)(''sparkify'' \<mapsto> lr, ''logs'' \<mapsto> lg)\<rparr>))))"
proof -
  have parts: "set [''year'', ''month''] \<subseteq> set (columns sp) \<and> \<not> set (columns sp) \<subseteq> set [''year'', ''month'']"
    if "songplay_columns spark agg = Inr sp" for agg sp
    using songplay_columns_Inr(1) [OF that] by auto
  have tparts: "set [''year'', ''month''] \<subseteq> set (columns tm) \<and> \<not> set (columns tm) \<subseteq> set [''year'', ''month'']"
    if "time_columns spark sp = Inr tm" for sp tm
    using time_columns_Inr(1) [OF that] by auto
  show ?thesis
    unfolding process_log_data_def Let_def job_Inr
    apply (rule iffI)
     apply (clarsimp simp: put_def)
    apply (clarsimp simp: put_def)
    apply (frule parts)
    apply (frule tparts)
    apply simp
    done
qed

lemma read_file_Inr: "read_file w = (Inr c, w') \<longleftrightarrow> dl_cfg w = Parsed c \<and> w' = w"
  by (auto simp: read_file_def split: config_file.splits)

lemma setenv_Inr: "setenv k v w = (Inr u, w') \<longleftrightarrow> w' = w\<lparr>environ := (environ w)(k \<mapsto> v)\<rparr>"
  by (auto simp: setenv_def)

lemma main_Inr:
  "main spark q w = (Inr (), w') \<longleftrightarrow>
     (\<exists>config key_id secret w2.
        dl_cfg w = Parsed config \<and>
        config_get config ''AWS'' ''AWS_ACCESS_KEY_ID'' = Inr key_id \<and>
        config_get config ''AWS'' ''AWS_SECRET_ACCESS_KEY'' = Inr secret \<and>
        process_song_data spark q input_data output_data
          (w\<lparr>environ := (environ w)(''AWS_ACCESS_KEY_ID'' \<mapsto> key_id,
                                       ''AWS_SECRET_ACCESS_KEY'' \<mapsto> secret)\<rparr>) = (Inr (), w2) \<and>
        process_log_data spark q input_data output_data w2 = (Inr (), w'))"
  unfolding main_def then_job_Inr lift_eq read_file_Inr setenv_Inr
  by auto


section \<open>The first occurrence is the least id\<close>

lemma set_keep_first: "set (keep_first key xs) \<subseteq> set xs"
  by (induction key xs rule: keep_first.induct) auto

lemma distinct_keep_first: "distinct (map key (keep_first key xs))"
proof (induction key xs rule: keep_first.induct)
  case (1 key)
  then show ?case by simp
next
  case (2 key x xs)
  have "key x \<notin> key ` set (keep_first key (filter (\<lambda>y. key y \<noteq> key x) xs))"
    using set_keep_first [of key "filter (\<lambda>y. key y \<noteq> key x) xs"] by auto
  with 2 show ?case by simp
qed

lemma keep_first_map:
  "(\<And>x. key' (f x) = key x) \<Longrightarrow> keep_first key' (map f xs) = map f (keep_first key xs)"
  by (induction key xs rule: keep_first.induct) (simp_all add: filter_map comp_def)

lemma keep_first_least:
  fixes ps :: "(nat \<times> 'a) list"
  assumes "sorted_wrt (\<lambda>p p'. fst p < fst p') ps"
  shows "map snd (filter (\<lambda>(k, x). \<forall>(k', x') \<in> set ps. key x' = key x \<longrightarrow> k \<le> k') ps) =
         keep_first key (map snd ps)"
  using assms
proof (induction "length ps" arbitrary: ps rule: less_induct)
  case less
  show ?case
  proof (cases ps)
    case Nil
    then show ?thesis by simp
  next
    case (Cons p rest)
    obtain k x where p: "p = (k, x)" by (cases p)
    let ?P = "\<lambda>qs (k, x). \<forall>(k', x') \<in> set qs. key x' = key x \<longrightarrow> k \<le> k'"
    let ?rest' = "filter (\<lambda>(k', y). key y \<noteq> key x) rest"
    from less.prems Cons p have above: "\<forall>(k', y) \<in> set rest. k < k'"
      and srest: "sorted_wrt (\<lambda>p p'. fst p < fst p') rest" by auto
    have "length ?rest' < length ps"
      using Cons by (simp add: le_imp_less_Suc)
    moreover have "sorted_wrt (\<lambda>p p'. fst p < fst p') ?rest'"
      using srest by (rule sorted_wrt_filter)
    ultimately have IH: "map snd (filter (?P ?rest') ?rest') = keep_first key (map snd ?rest')"
      by (rule less.hyps)
    have head: "?P ps (k, x)"
      using above Cons p by auto
    have "filter (?P ps) rest = filter (\<lambda>q. (case q of (k', y) \<Rightarrow> key y \<noteq> key x) \<and> ?P ?rest' q) rest"
    proof (rule filter_cong [OF refl])
      fix q assume q: "q \<in> set rest"
      obtain k' y where q': "q = (k', y)" by (cases q)
      from q q' above have "k < k'" by auto
      then show "?P ps q = ((case q of (k', y) \<Rightarrow> key y \<noteq> key x) \<and> ?P ?rest' q)"
        unfolding q' Cons p by (auto; metis)
    qed
    also have "\<dots> = filter (?P ?rest') ?rest'"
      by (simp add: conj_commute)
    finally have tail: "filter (?P ps) rest = filter (?P ?rest') ?rest'" .
    have "map snd ?rest' = filter (\<lambda>y. key y \<noteq> key x) (map snd rest)"
      by (simp add: filter_map comp_def case_prod_unfold)
    with head tail IH show ?thesis
      unfolding Cons p by simp
  qed
qed

lemma enumerate_map: "enumerate n (map f xs) = map (\<lambda>(k, x). (k, f x)) (enumerate n xs)"
  by (induction xs arbitrary: n) simp_all

lemma map_of_project: "map_of (project cs x) c = (if c \<in> set cs then Some (cell x c) else None)"
  by (induction cs) (auto simp: project_def)

lemma cell_project_snoc:
  "c0 \<notin> set cs \<Longrightarrow> cell (project cs x @ [(c0, v)]) c = (if c = c0 then v else cell (project cs x) c)"
  by (auto simp: cell_def map_of_append map_of_project map_add_def)

lemma project_append: "project (cs @ ds) r = project cs r @ project ds r"
  by (simp add: project_def)

lemma project_update_other:
  "c0 \<notin> set cs \<Longrightarrow> project cs (AList.update c0 v r) = project cs r"
  by (rule project_cong) (auto simp: cell_update)

lemma project_snoc_other:
  "c0 \<notin> set cs \<Longrightarrow> project cs (project cs x @ [(c0, v)]) = project cs x"
proof -
  assume a: "c0 \<notin> set cs"
  have "project cs (project cs x @ [(c0, v)]) = project cs (project cs x)"
    by (rule project_cong) (use a in \<open>auto simp: cell_project_snoc\<close>)
  then show ?thesis by (simp add: project_project)
qed

lemma spec_artist_select_distinct_first:
  assumes mono: "strict_mono ids"
  shows "spec_artist_select_distinct
           (vs(''sparkify'' \<mapsto> number_rows ids ''id''
                 \<lparr>columns = artist_columns, rows = map (project artist_columns) xs\<rparr>)) =
         Inr \<lparr>columns = artist_columns,
              rows = keep_first (\<lambda>r. cell r ''artist_id'') (map (project artist_columns) xs)\<rparr>"
proof -
  let ?ac = artist_columns
  define g where "g = (\<lambda>(k :: nat, x). project ?ac x @ [(''id'', VInt (ids k))])"
  let ?ps = "enumerate 0 xs"
  have id: "''id'' \<notin> set ?ac" and aid: "''artist_id'' \<in> set ?ac"
    by (simp_all add: artist_columns_def)
  have cols: "with_column_names ''id'' ?ac = ?ac @ [''id'']"
    using id by (simp add: with_column_names_def)
  have rows1: "map (project (?ac @ [''id'']))
                 (map (\<lambda>(k, r). AList.update ''id'' (VInt (ids k)) r)
                    (enumerate 0 (map (project ?ac) xs))) = map g ?ps"
    using id
    by (simp add: enumerate_map g_def comp_def case_prod_unfold project_append
          project_update_other project_project project_def [of "[''id'']"] cell_update)
  from rows1 have rows1':
    "map (project (?ac @ [''id'']) \<circ> (\<lambda>(k, y). AList.update ''id'' (VInt (ids k)) y))
       (enumerate 0 (map (project ?ac) xs)) = map g ?ps"
    by simp
  have first: "is_first ''artist_id'' (map g ?ps) (g p) \<longleftrightarrow>
        (case p of (k, x) \<Rightarrow> \<forall>(k', x') \<in> set ?ps. cell x' ''artist_id'' = cell x ''artist_id'' \<longrightarrow> k \<le> k')"
    for p
    using id aid mono
    by (auto simp: is_first_def g_def cell_project_snoc cell_project strict_mono_less_eq
          split: prod.splits)
  let ?least = "\<lambda>(k, x). \<forall>(k', x') \<in> set ?ps. cell x' ''artist_id'' = cell x ''artist_id'' \<longrightarrow> k \<le> k'"
  have sorted: "sorted_wrt (\<lambda>p p'. fst p < fst p') ?ps"
    by (simp add: sorted_wrt_map [symmetric] map_fst_enumerate del: sorted_wrt_map)
  have "map (project ?ac) (filter (is_first ''artist_id'' (map g ?ps)) (map g ?ps)) =
        map (project ?ac) (map g (filter ?least ?ps))"
    by (simp add: filter_map comp_def first case_prod_unfold)
  also have "\<dots> = map (project ?ac) (map snd (filter ?least ?ps))"
    using id by (simp add: g_def case_prod_unfold project_snoc_other)
  also have "map snd (filter ?least ?ps) = keep_first (\<lambda>x. cell x ''artist_id'') xs"
    using keep_first_least [OF sorted, of "\<lambda>x. cell x ''artist_id''"] by simp
  also have "map (project ?ac) (keep_first (\<lambda>x. cell x ''artist_id'') xs) =
             keep_first (\<lambda>r. cell r ''artist_id'') (map (project ?ac) xs)"
    using aid by (intro keep_first_map [symmetric]) (simp add: cell_project)
  finally have rows2:
    "map (project ?ac) (filter (is_first ''artist_id'' (map g ?ps)) (map g ?ps)) =
     keep_first (\<lambda>r. cell r ''artist_id'') (map (project ?ac) xs)" .
  have "spec_artist_select_distinct
           (vs(''sparkify'' \<mapsto> number_rows ids ''id''
                 \<lparr>columns = artist_columns, rows = map (project artist_columns) xs\<rparr>)) =
        Inr \<lparr>columns = ?ac,
             rows = map (project ?ac) (filter (is_first ''artist_id'' (map g ?ps)) (map g ?ps))\<rparr>"
    by (simp add: spec_artist_select_distinct_def view_def and_then_def
          number_rows_def cols rows1' select_def [of "?ac @ [''id'']"] select_def [of ?ac])
  with rows2 show ?thesis by simp
qed

section \<open>What a run reads\<close>

lemma then_job_reads:
  assumes "\<And>w. reads (snd (m w)) = reads w @ rs" and "\<And>x w. reads (snd (f x w)) = reads w"
  shows "reads (snd (then_job m f w)) = reads w @ rs"
proof (cases "m w")
  case (Pair r w1)
  with assms(1) [of w] have w1: "reads w1 = reads w @ rs" by simp
  show ?thesis
  proof (cases r)
    case (Inl e)
    with Pair w1 show ?thesis by (simp add: then_job_def)
  next
    case (Inr x)
    with Pair w1 assms(2) [of x w1] show ?thesis by (simp add: then_job_def)
  qed
qed

lemma then_job_keeps_reads:
  assumes "\<And>w. reads (snd (m w)) = reads w" and "\<And>x w. reads (snd (f x w)) = reads w"
  shows "reads (snd (then_job m f w)) = reads w"
  using then_job_reads [of m "[]" f w] assms by simp

lemma save_keeps_reads: "reads (snd (save m parts fmt path df w)) = reads w"
  by (simp add: save_def put_def split: list.splits option.splits save_mode.splits)

lemma step_keeps_reads:
  "reads (snd (lift r w)) = reads w"
  "reads (snd (createOrReplaceTempView n d w)) = reads w"
  "reads (snd (spark_sql qry w)) = reads w"
  "reads (snd (setenv k v w)) = reads w"
  "reads (snd (read_file w)) = reads w"
  by (simp_all add: lift_def createOrReplaceTempView_def spark_sql_def setenv_def read_file_def
        split: config_file.splits)

lemma spark_read_json_reads: "reads (snd (spark_read_json p w)) = reads w @ [p]"
  by (simp add: spark_read_json_def split: option.splits)

lemma process_song_data_reads:
  "reads (snd (process_song_data spark q a out w)) = reads w @ [song_data]"
  unfolding process_song_data_def Let_def
  by (intro then_job_reads then_job_keeps_reads spark_read_json_reads save_keeps_reads step_keeps_reads)




section \<open>Evaluating a run\<close>


lemma run_eqI: "fst p = Inr () \<Longrightarrow> w' = snd p \<Longrightarrow> p = (Inr (), w')"
  by (cases p) simp

lemma sample_song_phase:
  "process_song_data scenario_session spec_queries input_data output_data sample_world =
     (Inr (), after_song_phase)"
proof (rule run_eqI)
  show "fst (process_song_data scenario_session spec_queries input_data output_data sample_world) = Inr ()"
    by code_simp
qed (simp add: after_song_phase_def)

lemma sample_log_phase:
  "process_log_data scenario_session spec_queries input_data output_data after_song_phase =
     (Inr (), after_log_phase)"
proof (rule run_eqI)
  show "fst (process_log_data scenario_session spec_queries input_data output_data after_song_phase) = Inr ()"
    by code_simp
qed (simp add: after_log_phase_def)

lemma sample_main: "main scenario_session spec_queries sample_world = (Inr (), after_main)"
proof (rule run_eqI)
  show "fst (main scenario_session spec_queries sample_world) = Inr ()"
    by code_simp
qed (simp add: after_main_def)

lemma sample_numbering: "\<forall>df. strict_mono (monotonically_increasing_id scenario_session df)"
  by (simp add: scenario_session_def strict_mono_def)

section \<open>The claims\<close>







text \<open>
  C3. With the artist query as the specification describes it and a strictly increasing
  numbering of \<^verbatim>\<open>monotonically_increasing_id\<close>, the stored artists relation is the
  artist projection of the metadata records with, for every \<^verbatim>\<open>artist_id\<close>, the first
  record kept; no two of its rows have the same \<^verbatim>\<open>artist_id\<close>; and its columns are the
  five artist columns, without \<^verbatim>\<open>id\<close>.
\<close>

theorem artists_keep_first_occurrence:
  assumes "\<forall>df. strict_mono (monotonically_increasing_id spark df)"
    and "artist_select_distinct q = spec_artist_select_distinct"
    and "inputs w song_data = Some recs"
    and "process_song_data spark q a out w = (Inr (), w')"
  shows "\<exists>artists. storage w' (out @ ''artists'') =
            Some \<lparr>partitioned_by = [], file_format = ''parquet'', relation = artists\<rparr> \<and>
          columns artists = artist_columns \<and> ''id'' \<notin> set (columns artists) \<and>
          rows artists = keep_first (\<lambda>r. cell r ''artist_id'') (map (project artist_columns) recs) \<and>
          distinct (map (\<lambda>r. cell r ''artist_id'') (rows artists))"
proof -
  from assms(3,4) obtain asel art where
    asel: "select artist_columns (read_json recs) = Inr asel" and
    art: "artist_select_distinct q ((views w)(''sparkify'' \<mapsto> withColumn_id spark ''id'' asel)) = Inr art" and
    st: "storage w' (out @ ''artists'') =
           Some \<lparr>partitioned_by = [], file_format = ''parquet'', relation = art\<rparr>"
    by (auto simp: process_song_data_Inr put_def)
  from asel have "asel = \<lparr>columns = artist_columns, rows = map (project artist_columns) recs\<rparr>"
    by (simp add: select_Inr rows_read_json project_project)
  with art assms(1,2) have
    "art = \<lparr>columns = artist_columns,
            rows = keep_first (\<lambda>r. cell r ''artist_id'') (map (project artist_columns) recs)\<rparr>"
    by (simp add: withColumn_id_def spec_artist_select_distinct_first)
  with st show ?thesis
    by (simp add: distinct_keep_first) (simp add: artist_columns_def)
qed

theorem artists_keep_first_occurrence_witness:
  "(\<forall>df. strict_mono (monotonically_increasing_id scenario_session df)) \<and>
   artist_select_distinct spec_queries = spec_artist_select_distinct \<and>
   inputs sample_world song_data = Some [titled_metadata, titled_metadata] \<and>
   process_song_data scenario_session spec_queries input_data output_data sample_world =
     (Inr (), after_song_phase) \<and>
   (\<exists>artists. storage after_song_phase (output_data @ ''artists'') =
       Some \<lparr>partitioned_by = [], file_format = ''parquet'', relation = artists\<rparr> \<and>
     columns artists = artist_columns \<and> ''id'' \<notin> set (columns artists) \<and>
     rows artists = keep_first (\<lambda>r. cell r ''artist_id'')
                      (map (project artist_columns) [titled_metadata, titled_metadata]) \<and>
     distinct (map (\<lambda>r. cell r ''artist_id'') (rows artists)))"
proof -
  have q: "artist_select_distinct spec_queries = spec_artist_select_distinct"
    by (simp add: spec_queries_def)
  have i: "inputs sample_world song_data = Some [titled_metadata, titled_metadata]"
    by (simp add: sample_world_def scenario_world_def song_data_def input_data_def)
  from artists_keep_first_occurrence [OF sample_numbering q i sample_song_phase]
    sample_numbering q i sample_song_phase
  show ?thesis by blast
qed

text \<open>
  C4. A run of \<^verbatim>\<open>main\<close> that succeeds makes exactly five writes, all in overwrite mode:
  \<^verbatim>\<open>songs\<close> partitioned by year and artist name, \<^verbatim>\<open>artists\<close> and \<^verbatim>\<open>users\<close>
  unpartitioned, \<^verbatim>\<open>time\<close> and \<^verbatim>\<open>songplays\<close> partitioned by year and month. Whatever
  the storage held before, the run ends with the same five relations at the five paths
  and every other path as it was.
\<close>

theorem five_relations_overwritten:
  assumes "main spark q w = (Inr (), w')"
  shows "\<exists>songs artists users time songplays.
     writes w' = writes w @
       [(output_data @ ''songs'', Overwrite, [''year'', ''artist_name'']),
        (output_data @ ''artists'', Overwrite, []),
        (output_data @ ''users'', Overwrite, []),
        (output_data @ ''time'', Overwrite, [''year'', ''month'']),
        (output_data @ ''songplays'', Overwrite, [''year'', ''month''])] \<and>
     (\<forall>s. main spark q (w\<lparr>storage := s\<rparr>) =
        (Inr (), w'\<lparr>storage := s
           (output_data @ ''songs'' \<mapsto>
              \<lparr>partitioned_by = [''year'', ''artist_name''], file_format = ''parquet'', relation = songs\<rparr>,
            output_data @ ''artists'' \<mapsto>
              \<lparr>partitioned_by = [], file_format = ''parquet'', relation = artists\<rparr>,
            output_data @ ''users'' \<mapsto>
              \<lparr>partitioned_by = [], file_format = ''parquet'', relation = users\<rparr>,
            output_data @ ''time'' \<mapsto>
              \<lparr>partitioned_by = [''year'', ''month''], file_format = ''parquet'', relation = time\<rparr>,
            output_data @ ''songplays'' \<mapsto>
              \<lparr>partitioned_by = [''year'', ''month''], file_format = ''parquet'', relation = songplays\<rparr>)\<rparr>))"
proof -
  from assms obtain config key_id secret w2 where
    cfg: "dl_cfg w = Parsed config"
      "config_get config ''AWS'' ''AWS_ACCESS_KEY_ID'' = Inr key_id"
      "config_get config ''AWS'' ''AWS_SECRET_ACCESS_KEY'' = Inr secret" and
    song: "process_song_data spark q input_data output_data
          (w\<lparr>environ := (environ w)(''AWS_ACCESS_KEY_ID'' \<mapsto> key_id,
                                       ''AWS_SECRET_ACCESS_KEY'' \<mapsto> secret)\<rparr>) = (Inr (), w2)" and
    log: "process_log_data spark q input_data output_data w2 = (Inr (), w')"
    by (auto simp: main_Inr)
  from song obtain recs sel asel art where
    s: "inputs w song_data = Some recs"
       "select song_columns (read_json recs) = Inr sel"
       "select artist_columns (read_json recs) = Inr asel"
       "artist_select_distinct q ((views w)(''sparkify'' \<mapsto> withColumn_id spark ''id'' asel)) = Inr art"
       "output_data @ ''songs'' \<notin> set (denied w)" "output_data @ ''artists'' \<notin> set (denied w)" and
    w2: "w2 = put (output_data @ ''artists'') Overwrite []
               \<lparr>partitioned_by = [], file_format = ''parquet'', relation = art\<rparr>
            (put (output_data @ ''songs'') Overwrite [''year'', ''artist_name'']
               \<lparr>partitioned_by = [''year'', ''artist_name''], file_format = ''parquet'',
                relation = dropDuplicates sel\<rparr>
            (w\<lparr>environ := (environ w)(''AWS_ACCESS_KEY_ID'' \<mapsto> key_id,
                                        ''AWS_SECRET_ACCESS_KEY'' \<mapsto> secret),
               reads := reads w @ [song_data],
               views := (views w)(''sparkify'' \<mapsto> withColumn_id spark ''id'' asel,
                                  ''artists'' \<mapsto> art, ''songs'' \<mapsto> dropDuplicates sel)\<rparr>))"
    unfolding process_song_data_Inr by auto
  from log obtain events lr lg agg sp us tm where
    l: "inputs w2 (input_data @ ''log_data/*/*/*.json'') = Some events"
       "log_rows spark (read_json events) = Inr lr"
       "get_songplay_log_data q ((views w2)(''sparkify'' \<mapsto> lr)) = Inr lg"
       "aggregate_songplay_data q ((views w2)(''sparkify'' \<mapsto> lr, ''logs'' \<mapsto> lg)) = Inr agg"
       "songplay_columns spark agg = Inr sp"
       "user_select_distinct q ((views w2)(''sparkify'' \<mapsto> lr, ''logs'' \<mapsto> lg)) = Inr us"
       "time_columns spark sp = Inr tm"
       "output_data @ ''users'' \<notin> set (denied w2)" "output_data @ ''time'' \<notin> set (denied w2)"
       "output_data @ ''songplays'' \<notin> set (denied w2)" and
    w': "w' = put (output_data @ ''songplays'') Overwrite [''year'', ''month'']
               \<lparr>partitioned_by = [''year'', ''month''], file_format = ''parquet'', relation = sp\<rparr>
            (put (output_data @ ''time'') Overwrite [''year'', ''month'']
               \<lparr>partitioned_by = [''year'', ''month''], file_format = ''parquet'', relation = tm\<rparr>
            (put (output_data @ ''users'') Overwrite []
               \<lparr>partitioned_by = [], file_format = ''parquet'', relation = us\<rparr>
            (w2\<lparr>reads := reads w2 @ [input_data @ ''log_data/*/*/*.json''],
               views := (views w2)(''sparkify'' \<mapsto> lr, ''logs'' \<mapsto> lg)\<rparr>)))"
    unfolding process_log_data_Inr by auto
  have log_writes: "writes w' = writes w @
       [(output_data @ ''songs'', Overwrite, [''year'', ''artist_name'']),
        (output_data @ ''artists'', Overwrite, []),
        (output_data @ ''users'', Overwrite, []),
        (output_data @ ''time'', Overwrite, [''year'', ''month'']),
        (output_data @ ''songplays'', Overwrite, [''year'', ''month''])]"
    by (simp add: w' w2 put_def)
  have rerun: "main spark q (w\<lparr>storage := s\<rparr>) =
        (Inr (), w'\<lparr>storage := s
           (output_data @ ''songs'' \<mapsto>
              \<lparr>partitioned_by = [''year'', ''artist_name''], file_format = ''parquet'',
               relation = dropDuplicates sel\<rparr>,
            output_data @ ''artists'' \<mapsto>
              \<lparr>partitioned_by = [], file_format = ''parquet'', relation = art\<rparr>,
            output_data @ ''users'' \<mapsto>
              \<lparr>partitioned_by = [], file_format = ''parquet'', relation = us\<rparr>,
            output_data @ ''time'' \<mapsto>
              \<lparr>partitioned_by = [''year'', ''month''], file_format = ''parquet'', relation = tm\<rparr>,
            output_data @ ''songplays'' \<mapsto>
              \<lparr>partitioned_by = [''year'', ''month''], file_format = ''parquet'', relation = sp\<rparr>)\<rparr>)" for s
    using cfg s l
    by (simp add: main_Inr process_song_data_Inr process_log_data_Inr w' w2 put_def)
  from log_writes rerun show ?thesis by blast
qed

theorem five_relations_overwritten_witness:
  "main scenario_session spec_queries sample_world = (Inr (), after_main) \<and>
   writes after_main =
     [(output_data @ ''songs'', Overwrite, [''year'', ''artist_name'']),
      (output_data @ ''artists'', Overwrite, []),
      (output_data @ ''users'', Overwrite, []),
      (output_data @ ''time'', Overwrite, [''year'', ''month'']),
      (output_data @ ''songplays'', Overwrite, [''year'', ''month''])]"
proof -
  have "writes sample_world = []"
    by (simp add: sample_world_def scenario_world_def)
  with five_relations_overwritten [OF sample_main] sample_main show ?thesis by auto
qed

text \<open>
  C5. When \<^verbatim>\<open>process_log_data\<close> succeeds, the view \<^verbatim>\<open>sparkify\<close>, from which the queries
  derive the facts and the users, holds the numbered projections of exactly the events
  whose page is "NextSong"; and replacing the events by others with the same fields and
  the same "NextSong" events changes neither the outcome nor anything the run leaves
  behind.
\<close>

theorem only_nextsong_events:
  assumes "inputs w (a @ ''log_data/*/*/*.json'') = Some events"
    and "process_log_data spark q a out w = (Inr (), w')"
  shows "views w' ''sparkify'' =
           Some (withColumn_id spark ''id''
                  \<lparr>columns = log_columns,
                   rows = map (project log_columns)
                            (filter (\<lambda>e. cell e ''page'' = VStr ''NextSong'') events)\<rparr>) \<and>
         (\<forall>others. set (columns (read_json others)) = set (columns (read_json events)) \<longrightarrow>
            filter (\<lambda>e. cell e ''page'' = VStr ''NextSong'') others =
            filter (\<lambda>e. cell e ''page'' = VStr ''NextSong'') events \<longrightarrow>
            process_log_data spark q a out
              (w\<lparr>inputs := (inputs w)(a @ ''log_data/*/*/*.json'' \<mapsto> others)\<rparr>) =
            (Inr (), w'\<lparr>inputs := (inputs w)(a @ ''log_data/*/*/*.json'' \<mapsto> others)\<rparr>))"
proof (intro conjI allI impI)
  from assms show "views w' ''sparkify'' =
           Some (withColumn_id spark ''id''
                  \<lparr>columns = log_columns,
                   rows = map (project log_columns)
                            (filter (\<lambda>e. cell e ''page'' = VStr ''NextSong'') events)\<rparr>)"
    by (auto simp: process_log_data_Inr put_def log_rows_Inr)
next
  fix others
  assume cols: "set (columns (read_json others)) = set (columns (read_json events))"
    and flt: "filter (\<lambda>e. cell e ''page'' = VStr ''NextSong'') others =
              filter (\<lambda>e. cell e ''page'' = VStr ''NextSong'') events"
  have "log_rows spark (read_json others) = log_rows spark (read_json events)"
  proof (cases "log_rows spark (read_json events)")
    case (Inr lr)
    then have "log_rows spark (read_json others) = Inr lr"
      using cols flt by (simp add: log_rows_Inr)
    with Inr show ?thesis by simp
  next
    case (Inl e)
    with assms show ?thesis by (auto simp: process_log_data_Inr)
  qed
  with assms show "process_log_data spark q a out
              (w\<lparr>inputs := (inputs w)(a @ ''log_data/*/*/*.json'' \<mapsto> others)\<rparr>) =
            (Inr (), w'\<lparr>inputs := (inputs w)(a @ ''log_data/*/*/*.json'' \<mapsto> others)\<rparr>)"
    unfolding process_log_data_Inr
    by (auto simp: put_def)
qed

theorem only_nextsong_events_witness:
  "inputs after_song_phase (input_data @ ''log_data/*/*/*.json'') =
     Some [padded_event, home_event, padded_event] \<and>
   process_log_data scenario_session spec_queries input_data output_data after_song_phase =
     (Inr (), after_log_phase) \<and>
   views after_log_phase ''sparkify'' =
     Some (withColumn_id scenario_session ''id''
            \<lparr>columns = log_columns, rows = map (project log_columns) [padded_event, padded_event]\<rparr>) \<and>
   process_log_data scenario_session spec_queries input_data output_data
     (after_song_phase\<lparr>inputs := (inputs after_song_phase)
        (input_data @ ''log_data/*/*/*.json'' \<mapsto> [padded_event, padded_event])\<rparr>) =
     (Inr (), after_log_phase\<lparr>inputs := (inputs after_song_phase)
        (input_data @ ''log_data/*/*/*.json'' \<mapsto> [padded_event, padded_event])\<rparr>)"
proof -
  let ?ns = "\<lambda>e. cell e ''page'' = VStr ''NextSong''"
  have i: "inputs after_song_phase (input_data @ ''log_data/*/*/*.json'') =
      Some [padded_event, home_event, padded_event]"
    by code_simp
  have f: "filter ?ns [padded_event, home_event, padded_event] = [padded_event, padded_event]"
    by code_simp
  have c: "set (columns (read_json [padded_event, padded_event])) =
           set (columns (read_json [padded_event, home_event, padded_event]))"
    by code_simp
  have f': "filter ?ns [padded_event, padded_event] = filter ?ns [padded_event, home_event, padded_event]"
    by code_simp
  from only_nextsong_events [OF i sample_log_phase] c f' i sample_log_phase show ?thesis
    unfolding f by blast
qed



text \<open>
  C7. When \<^verbatim>\<open>process_log_data\<close> succeeds and the numbering of
  \<^verbatim>\<open>monotonically_increasing_id\<close> is strictly increasing, as the engine documents it, no
  two rows of the stored songplays relation have the same \<^verbatim>\<open>songplay_id\<close>.
\<close>

theorem songplay_id_unique:
  assumes "\<forall>df. strict_mono (monotonically_increasing_id spark df)"
    and "process_log_data spark q a out w = (Inr (), w')"
  shows "\<exists>sp. storage w' (out @ ''songplays'') = Some sp \<and>
          distinct (map (\<lambda>r. cell r ''songplay_id'') (rows (relation sp)))"
proof -
  from assms(2) obtain agg sp where
    sp: "songplay_columns spark agg = Inr sp" and
    st: "storage w' (out @ ''songplays'') =
           Some \<lparr>partitioned_by = [''year'', ''month''], file_format = ''parquet'', relation = sp\<rparr>"
    by (auto simp: process_log_data_Inr put_def)
  from songplay_columns_Inr(3) [OF sp] obtain d where
    ids: "\<forall>k < length (rows agg).
            cell (rows sp ! k) ''songplay_id'' = VInt (monotonically_increasing_id spark d k)"
    by blast
  let ?ids = "monotonically_increasing_id spark d"
  have "map (\<lambda>r. cell r ''songplay_id'') (rows sp) = map (\<lambda>k. VInt (?ids k)) [0..<length (rows agg)]"
    using songplay_columns_Inr(2) [OF sp] ids by (auto intro: nth_equalityI)
  moreover have "inj_on (\<lambda>k. VInt (?ids k)) A" for A
    using assms(1) by (auto simp: inj_on_def strict_mono_eq)
  ultimately have "distinct (map (\<lambda>r. cell r ''songplay_id'') (rows sp))"
    by (simp add: distinct_map)
  with st show ?thesis by simp
qed

theorem songplay_id_unique_witness:
  "(\<forall>df. strict_mono (monotonically_increasing_id scenario_session df)) \<and>
   process_log_data scenario_session spec_queries input_data output_data after_song_phase =
     (Inr (), after_log_phase) \<and>
   stored_column (output_data @ ''songplays'') ''songplay_id'' after_log_phase =
     Some [VInt 0, VInt 1] \<and>
   (\<exists>sp. storage after_log_phase (output_data @ ''songplays'') = Some sp \<and>
      distinct (map (\<lambda>r. cell r ''songplay_id'') (rows (relation sp))))"
proof -
  have "stored_column (output_data @ ''songplays'') ''songplay_id'' after_log_phase =
          Some [VInt 0, VInt 1]"
    by code_simp
  with songplay_id_unique [OF sample_numbering sample_log_phase] sample_numbering sample_log_phase
  show ?thesis by blast
qed



text \<open>
  C9. \<^verbatim>\<open>process_song_data\<close> does the same whatever its \<^verbatim>\<open>input_base_path\<close> is, and the
  one path it reads is the fixed one.
\<close>

theorem process_song_data_ignores_input_base_path:
  "process_song_data spark q a out w = process_song_data spark q b out w \<and>
   reads (snd (process_song_data spark q a out w)) = reads w @ [''s3a://udacity-dend/song_data/A/A/*/*.json'']"
  using process_song_data_reads [of spark q a out w]
  by (simp add: process_song_data_def song_data_def)

theorem process_song_data_ignores_input_base_path_witness:
  "process_song_data scenario_session spec_queries ''s3a://udacity-dend/'' output_data sample_world =
   process_song_data scenario_session spec_queries ''file:///tmp/'' output_data sample_world \<and>
   reads (snd (process_song_data scenario_session spec_queries ''s3a://udacity-dend/'' output_data
                 sample_world)) =
     reads sample_world @ [''s3a://udacity-dend/song_data/A/A/*/*.json'']"
  by (rule process_song_data_ignores_input_base_path)

text \<open>
  C10. When \<^verbatim>\<open>process_log_data\<close> succeeds, the stored time relation has exactly the
  columns hour, day, week, month, year and weekday, so \<^verbatim>\<open>start_time\<close> is not one of
  them, and it has as many rows as the stored songplay facts have distinct
  \<^verbatim>\<open>start_time\<close> values.
\<close>

theorem time_relation_schema:
  assumes "process_log_data spark q a out w = (Inr (), w')"
  shows "\<exists>tm sp. storage w' (out @ ''time'') =
            Some \<lparr>partitioned_by = [''year'', ''month''], file_format = ''parquet'', relation = tm\<rparr> \<and>
          storage w' (out @ ''songplays'') = Some sp \<and>
          columns tm = [''hour'', ''day'', ''week'', ''month'', ''year'', ''weekday''] \<and>
          ''start_time'' \<notin> set (columns tm) \<and>
          length (rows tm) = card ((\<lambda>r. cell r ''start_time'') ` set (rows (relation sp)))"
proof -
  from assms obtain sp tm where
    tm: "time_columns spark sp = Inr tm" and
    st: "storage w' (out @ ''time'') =
           Some \<lparr>partitioned_by = [''year'', ''month''], file_format = ''parquet'', relation = tm\<rparr>" and
    ss: "storage w' (out @ ''songplays'') =
           Some \<lparr>partitioned_by = [''year'', ''month''], file_format = ''parquet'', relation = sp\<rparr>"
    by (auto simp: process_log_data_Inr put_def)
  from time_columns_Inr [OF tm] st ss show ?thesis by simp
qed

theorem time_relation_schema_witness:
  "process_log_data scenario_session spec_queries input_data output_data after_song_phase =
     (Inr (), after_log_phase) \<and>
   stored_column (output_data @ ''songplays'') ''start_time'' after_log_phase =
     Some [VInt 1000, VInt 1000] \<and>
   stored_column (output_data @ ''time'') ''hour'' after_log_phase = Some [VInt 0] \<and>
   (\<exists>tm sp. storage after_log_phase (output_data @ ''time'') =
       Some \<lparr>partitioned_by = [''year'', ''month''], file_format = ''parquet'', relation = tm\<rparr> \<and>
     storage after_log_phase (output_data @ ''songplays'') = Some sp \<and>
     columns tm = [''hour'', ''day'', ''week'', ''month'', ''year'', ''weekday''] \<and>
     ''start_time'' \<notin> set (columns tm) \<and>
     length (rows tm) = card ((\<lambda>r. cell r ''start_time'') ` set (rows (relation sp))))"
proof -
  have "stored_column (output_data @ ''songplays'') ''start_time'' after_log_phase =
          Some [VInt 1000, VInt 1000]"
    and "stored_column (output_data @ ''time'') ''hour'' after_log_phase = Some [VInt 0]"
    by code_simp+
  with time_relation_schema [OF sample_log_phase] sample_log_phase show ?thesis by blast
qed

end
